theory Spec2Isabelle
  imports
    Complex_Main
    "HOL-Library.Log_Nat"
    "HOL-Library.Char_ord"
    "HOL-Library.List_Lexorder"
    "HOL-Library.Product_Lexorder"
    "HOL-Library.Multiset"
begin

section \<open>Python floats\<close>

text \<open>
  The confidences and rates of the program are Python floats, that is IEEE 754 binary64
  numbers, and every \<^verbatim>\<open>+\<close>, \<^verbatim>\<open>/\<close> and \<^verbatim>\<open>*\<close> on them rounds its exact result to the
  nearest binary64, ties to the even significand. A float is modelled by the rational
  number it denotes, and each operation by the exact operation followed by that rounding.
  Overflow and subnormal numbers are left out: every value computed here is a small sum of
  tenths or a quotient of two counts scaled by 100.
\<close>

definition floor_log2 :: "rat \<Rightarrow> int" where
  \<comment> \<open>for \<open>0 < x\<close>, the \<open>e\<close> with \<open>2 powi e \<le> x < 2 powi (e + 1)\<close>\<close>
  "floor_log2 x = (if 1 \<le> x then bitlen \<lfloor>x\<rfloor> - 1 else - bitlen (\<lceil>1 / x\<rceil> - 1))"

definition round_half_even :: "rat \<Rightarrow> int" where
  "round_half_even q =
     (let f = \<lfloor>q\<rfloor>; r = q - of_int f
      in if r < 1 / 2 then f
         else if 1 / 2 < r then f + 1
         else if even f then f else f + 1)"

definition ulp :: "rat \<Rightarrow> rat" where
  \<comment> \<open>the spacing of the binary64 numbers in the binade of \<open>x\<close>: 53 significant bits\<close>
  "ulp x = 2 powi (floor_log2 \<bar>x\<bar> - 52)"

definition float64 :: "rat \<Rightarrow> rat" where
  \<comment> \<open>the binary64 number nearest to \<open>x\<close>; what a decimal literal such as \<^verbatim>\<open>0.8\<close> denotes\<close>
  "float64 x = (if x = 0 then 0 else of_int (round_half_even (x / ulp x)) * ulp x)"

definition fadd :: "rat \<Rightarrow> rat \<Rightarrow> rat" where
  "fadd x y = float64 (x + y)"

definition fdiv :: "rat \<Rightarrow> rat \<Rightarrow> rat" where
  \<comment> \<open>only called with a divisor that the caller has checked, or knows, to be nonzero\<close>
  "fdiv x y = float64 (x / y)"

definition fmul :: "rat \<Rightarrow> rat \<Rightarrow> rat" where
  "fmul x y = float64 (x * y)"

section \<open>Python strings\<close>

text \<open>
  A \<^verbatim>\<open>str\<close> is modelled by its UTF-8 bytes. Equality, \<^verbatim>\<open>startswith\<close>, \<^verbatim>\<open>endswith\<close>,
  \<^verbatim>\<open>in\<close> and the ordering of two strings are the same on the bytes as on the code points.
\<close>

fun startswith :: "string \<Rightarrow> string \<Rightarrow> bool" where
  "startswith s [] = True"
| "startswith [] (c # p) = False"
| "startswith (a # s) (c # p) = (a = c \<and> startswith s p)"

definition endswith :: "string \<Rightarrow> string \<Rightarrow> bool" where
  "endswith s p = startswith (rev s) (rev p)"

fun str_contains :: "string \<Rightarrow> string \<Rightarrow> bool" where
  \<comment> \<open>\<^verbatim>\<open>sub in s\<close>\<close>
  "str_contains sub [] = (sub = [])"
| "str_contains sub (c # s) = (startswith (c # s) sub \<or> str_contains sub s)"

section \<open>Configuration (config.py)\<close>

text \<open>
  The two pattern tables are Python dicts from a name to a list of patterns; a dict
  iterates in insertion order, so each is an association list.
\<close>

record config =
  min_engagement_time :: rat
  page_categories :: "(string \<times> string list) list"
  traffic_groups :: "(string \<times> string list) list"

fun match_patterns :: "string list \<Rightarrow> string \<Rightarrow> bool" where
  \<comment> \<open>the inner loop of \<^verbatim>\<open>get_page_category\<close>: does it reach \<^verbatim>\<open>return category\<close>?\<close>
  "match_patterns [] page_path = False"
| "match_patterns (pattern # patterns) page_path =
     (if endswith pattern ''*''
      then (let prefix = butlast pattern
            in if startswith page_path prefix then True
               else match_patterns patterns page_path)
      else (if page_path = pattern then True
            else match_patterns patterns page_path))"

fun lookup_category :: "(string \<times> string list) list \<Rightarrow> string \<Rightarrow> string" where
  \<comment> \<open>the outer loop, shared by \<^verbatim>\<open>get_page_category\<close> and \<^verbatim>\<open>get_traffic_group\<close>\<close>
  "lookup_category [] s = ''other''"
| "lookup_category ((category, patterns) # rest) s =
     (if match_patterns patterns s then category else lookup_category rest s)"

definition get_page_category :: "config \<Rightarrow> string \<Rightarrow> string" where
  "get_page_category cfg page_path = lookup_category (page_categories cfg) page_path"

definition get_traffic_group :: "config \<Rightarrow> string \<Rightarrow> string \<Rightarrow> string" where
  "get_traffic_group cfg source medium =
     (let source_medium = source @ ''/'' @ medium
      in lookup_category (traffic_groups cfg) source_medium)"

definition default_config :: config where
  "default_config =
     \<lparr> min_engagement_time = 15,
       page_categories =
         [(''homepage'', [''/'']),
          (''authentication'', [''/login'', ''/id-login'', ''/provider-join'']),
          (''content'', [''/posts/*'', ''/skill-guide/*'', ''/p-posts/*'']),
          (''service_info'', [''/fee-information'', ''/providers'', ''/service-plan/*'']),
          (''core_features'', [''/order/*'', ''/products/*'', ''/distribution/*'']),
          (''support'', [''/p-posts/qna'', ''/skill-guide/*''])],
       traffic_groups =
         [(''paid_search'', [''google/cpc'', ''naver/cpc'', ''naver/cpc2'']),
          (''organic_search'', [''google/organic'', ''naver/organic'', ''daum/organic'']),
          (''social_media'', [''blog/sns'', ''instagram/*'', ''youtube/*'']),
          (''referral'', [''*referral'', ''blog/*'']),
          (''direct'', [''(direct)/(none)'', ''(not set)/(not set)'']),
          (''email'', [''stibee/*''])] \<rparr>"

definition pattern_matches :: "string \<Rightarrow> string \<Rightarrow> bool" where
  \<comment> \<open>the matching rule in the words of the specification\<close>
  "pattern_matches pattern s =
     (if pattern \<noteq> [] \<and> last pattern = CHR ''*''
      then take (length pattern - 1) s = butlast pattern
      else s = pattern)"

section \<open>Events and data frames\<close>

text \<open>
  A row of the event frame. \<open>engagementTimeMsec\<close> is \<open>None\<close> where the column is
  absent or the cell is NaN. A frame is the list of its rows in frame order, each with its
  index label (\<^verbatim>\<open>row.name\<close>); the labels of a frame are taken to be distinct, as
  the default index of a frame built from records is.
\<close>

record event =
  userPseudoId :: string
  sessionId :: string
  eventName :: string
  pagePath :: string
  sessionSource :: string
  sessionMedium :: string
  deviceCategory :: string
  country :: string
  eventTimestamp :: nat
  engagementTimeMsec :: "rat option"

record classified_event = event +
  funnel_stage :: string
  stage_confidence :: rat
  page_category :: string

type_synonym 'a row = "nat \<times> 'a event_scheme"

section \<open>Stage classifier (stage\_classifier.py)\<close>

definition conversion_event_name :: string where
  \<comment> \<open>the UTF-8 bytes of the four Hangul syllables of the sign-up event, then \<open>2\<close>\<close>
  "conversion_event_name =
     [CHR 0xED, CHR 0x9A, CHR 0x8C, CHR 0xEC, CHR 0x9B, CHR 0x90,
      CHR 0xEA, CHR 0xB0, CHR 0x80, CHR 0xEC, CHR 0x9E, CHR 0x85] @ ''2''"

record stage_config =
  events :: "string list"
  pages :: "string list"
  priority :: nat

definition awareness_conditions :: "'a row \<Rightarrow> 'a row list \<Rightarrow> stage_config \<Rightarrow> rat" where
  "awareness_conditions event context config =
     (let confidence = 0;
          confidence = (if eventName (snd event) = ''session_start''
                        then fadd confidence (float64 (8 / 10)) else confidence);
          confidence = (if eventName (snd event) = ''first_visit''
                        then fadd confidence (float64 (9 / 10)) else confidence);
          confidence = (if sessionSource (snd event) \<noteq> ''(direct)''
                        then fadd confidence (float64 (3 / 10)) else confidence);
          confidence = (if pagePath (snd event) \<in> set [''/'', ''/skill-guide/one-click'']
                        then fadd confidence (float64 (4 / 10)) else confidence);
          confidence = (case context of
                          [] \<Rightarrow> confidence
                        | first_event # _ \<Rightarrow>
                            if fst event = fst first_event
                            then fadd confidence (float64 (3 / 10)) else confidence)
      in min confidence 1)"

definition interest_conditions ::
  "config \<Rightarrow> 'a row \<Rightarrow> 'a row list \<Rightarrow> stage_config \<Rightarrow> rat" where
  "interest_conditions cfg event context config =
     (let confidence = 0;
          confidence = (if eventName (snd event) \<in> set [''user_engagement'', ''visit_blog'']
                        then fadd confidence (float64 (7 / 10)) else confidence);
          confidence = (if str_contains ''/posts/'' (pagePath (snd event))
                           \<or> str_contains ''/skill-guide/'' (pagePath (snd event))
                        then fadd confidence (float64 (5 / 10)) else confidence);
          confidence = (case engagementTimeMsec (snd event) of
                          None \<Rightarrow> confidence
                        | Some msec \<Rightarrow>
                            (let engagement_sec = fdiv msec 1000
                             in if engagement_sec > min_engagement_time cfg
                                then fadd confidence (float64 (4 / 10)) else confidence));
          confidence = (if eventName (snd event) = ''visit_blog''
                        then fadd confidence (float64 (6 / 10)) else confidence);
          prior_awareness =
            list_ex (\<lambda>row. eventName (snd row) \<in> set [''session_start'', ''first_visit''])
              (filter (\<lambda>row. fst row < fst event) context);
          confidence = (if prior_awareness
                        then fadd confidence (float64 (2 / 10)) else confidence)
      in min confidence 1)"

definition consideration_conditions :: "'a row \<Rightarrow> 'a row list \<Rightarrow> stage_config \<Rightarrow> rat" where
  "consideration_conditions event context config =
     (let confidence = 0;
          service_pages = [''/fee-information'', ''/providers'', ''/service-plan''];
          confidence = (if list_ex (\<lambda>page. str_contains page (pagePath (snd event))) service_pages
                        then fadd confidence (float64 (8 / 10)) else confidence);
          unique_pages = length (remdups (map (\<lambda>row. pagePath (snd row)) context));
          confidence = (if unique_pages \<ge> 3
                        then fadd confidence (float64 (3 / 10)) else confidence);
          confidence = (if unique_pages \<ge> 5
                        then fadd confidence (float64 (2 / 10)) else confidence);
          event_position = length (filter (\<lambda>row. fst row \<le> fst event) context);
          confidence = (if event_position \<ge> 3
                        then fadd confidence (float64 (2 / 10)) else confidence);
          prior_interest =
            list_ex (\<lambda>row. eventName (snd row) \<in> set [''user_engagement'', ''visit_blog''])
              (filter (\<lambda>row. fst row < fst event) context);
          confidence = (if prior_interest
                        then fadd confidence (float64 (3 / 10)) else confidence);
          confidence = (if sessionSource (snd event) = ''(direct)''
                        then fadd confidence (float64 (2 / 10)) else confidence)
      in min confidence 1)"

definition conversion_conditions :: "'a row \<Rightarrow> 'a row list \<Rightarrow> stage_config \<Rightarrow> rat" where
  "conversion_conditions event context config =
     (let confidence = 0;
          confidence =
            (if eventName (snd event) = conversion_event_name then 1
             else if pagePath (snd event) = ''/provider-join''
             then (if eventName (snd event) = ''page_view''
                   then fadd confidence (float64 (3 / 10))
                   else if eventName (snd event) = ''user_engagement''
                   then fadd confidence (float64 (5 / 10))
                   else confidence)
             else confidence)
      in min confidence 1)"

definition stage_rules ::
  "config \<Rightarrow> (string \<times> stage_config \<times> ('a row \<Rightarrow> 'a row list \<Rightarrow> stage_config \<Rightarrow> rat)) list" where
  \<comment> \<open>\<^verbatim>\<open>_initialize_stage_rules\<close>: a dict, iterated in the order written\<close>
  "stage_rules cfg =
     [(''AWARENESS'',
        \<lparr>events = [''session_start'', ''first_visit''],
         pages = [''/'', ''/skill-guide/one-click''], priority = 1\<rparr>,
        awareness_conditions),
      (''INTEREST'',
        \<lparr>events = [''user_engagement'', ''visit_blog'', ''scroll''],
         pages = [''/posts/*'', ''/skill-guide/*''], priority = 2\<rparr>,
        interest_conditions cfg),
      (''CONSIDERATION'',
        \<lparr>events = [''page_view''],
         pages = [''/fee-information'', ''/providers'', ''/service-plan/*''], priority = 3\<rparr>,
        consideration_conditions),
      (''CONVERSION'',
        \<lparr>events = [conversion_event_name],
         pages = [''/provider-join''], priority = 4\<rparr>,
        conversion_conditions)]"

definition classify_step ::
  "'a row \<Rightarrow> 'a row list \<Rightarrow>
   string \<times> stage_config \<times> ('a row \<Rightarrow> 'a row list \<Rightarrow> stage_config \<Rightarrow> rat) \<Rightarrow>
   string \<times> rat \<Rightarrow> string \<times> rat" where
  \<comment> \<open>one pass of the loop body of \<^verbatim>\<open>_classify_single_event\<close>\<close>
  "classify_step event_row user_context rule acc =
     (case rule of (stage_name, stage_config, conditions) \<Rightarrow>
      case acc of (best_stage, max_confidence) \<Rightarrow>
        (let confidence = conditions event_row user_context stage_config
         in if confidence > max_confidence then (stage_name, confidence)
            else (best_stage, max_confidence)))"

definition classify_single_event :: "config \<Rightarrow> 'a row \<Rightarrow> 'a row list \<Rightarrow> string \<times> rat" where
  "classify_single_event cfg event_row user_context =
     fold (classify_step event_row user_context) (stage_rules cfg) (''UNKNOWN'', 0)"

definition score_table ::
  "config \<Rightarrow> 'a row \<Rightarrow> 'a row list \<Rightarrow> (string \<times> rat) list" where
  \<comment> \<open>the confidence each rule of the table gives, in the order of the table\<close>
  "score_table cfg event_row user_context =
     map (\<lambda>(stage_name, stage_config, conditions).
            (stage_name, conditions event_row user_context stage_config)) (stage_rules cfg)"

definition highest_confidence :: "(string \<times> rat) list \<Rightarrow> string \<times> rat" where
  \<comment> \<open>the assignment rule in the words of the specification\<close>
  "highest_confidence scores =
     (if list_all (\<lambda>entry. snd entry = 0) scores then (''UNKNOWN'', 0)
      else (let m = Max (set (map snd scores))
            in (fst (hd (filter (\<lambda>entry. snd entry = m) scores)), m)))"

definition set_stage ::
  "nat \<Rightarrow> string \<times> rat \<Rightarrow> (nat \<times> classified_event) list \<Rightarrow> (nat \<times> classified_event) list" where
  \<comment> \<open>the two writes \<^verbatim>\<open>user_events.at[idx, ...] = ...\<close>\<close>
  "set_stage idx res user_events =
     map (\<lambda>(i, r). if i = idx
                    then (i, r\<lparr>funnel_stage := fst res, stage_confidence := snd res\<rparr>)
                    else (i, r)) user_events"

definition classify_user_journey ::
  "config \<Rightarrow> (nat \<times> classified_event) list \<Rightarrow> (nat \<times> classified_event) list" where
  \<comment> \<open>\<^verbatim>\<open>iterrows\<close> walks the rows as they were when the loop began, while the writes go to
      \<open>user_events\<close>, which is also the context of every later row\<close>
  "classify_user_journey cfg user_events =
     (let user_events = sort_key (\<lambda>row. eventTimestamp (snd row)) user_events
      in fold (\<lambda>row ue. set_stage (fst row) (classify_single_event cfg row ue) ue)
           user_events user_events)"

definition add_columns :: "config \<Rightarrow> (nat \<times> event) list \<Rightarrow> (nat \<times> classified_event) list" where
  \<comment> \<open>the three new columns with their initial values\<close>
  "add_columns cfg events_df =
     map (\<lambda>(i, e). (i, event.extend e
            (classified_event.fields ''UNKNOWN'' 0 (get_page_category cfg (pagePath e)))))
       events_df"

definition groupby_user :: "'a row list \<Rightarrow> 'a row list list" where
  \<comment> \<open>\<^verbatim>\<open>groupby('userPseudoId')\<close>: groups in ascending key order, rows in frame order\<close>
  "groupby_user df =
     map (\<lambda>user_id. filter (\<lambda>row. userPseudoId (snd row) = user_id) df)
       (sort (remdups (map (\<lambda>row. userPseudoId (snd row)) df)))"

definition reindex :: "(nat \<times> 'b) list \<Rightarrow> (nat \<times> 'b) list" where
  \<comment> \<open>\<^verbatim>\<open>ignore_index=True\<close>\<close>
  "reindex df = zip [0..<length df] (map snd df)"

definition classify_user_events ::
  "config \<Rightarrow> (nat \<times> event) list \<Rightarrow> (nat \<times> classified_event) list" where
  "classify_user_events cfg events_df =
     (if events_df = [] then []
      else (let events_df = add_columns cfg events_df;
                user_groups = groupby_user events_df;
                classified_dfs = map (classify_user_journey cfg) user_groups
            in reindex (concat classified_dfs)))"



section \<open>Auxiliary notions for the proofs\<close>

definition base :: "'a row list \<Rightarrow> (nat \<times> event) list" where
  \<comment> \<open>a frame without the columns the classifier adds\<close>
  "base df = map (\<lambda>row. (fst row, event.truncate (snd row))) df"

definition annotate ::
  "config \<Rightarrow> (nat \<times> classified_event) list \<Rightarrow> nat \<times> classified_event \<Rightarrow>
   nat \<times> classified_event" where
  \<comment> \<open>a row with the stage and confidence that its classification in a context gives\<close>
  "annotate cfg ctx row =
     (fst row, (snd row)\<lparr>funnel_stage := fst (classify_single_event cfg row ctx),
                          stage_confidence := snd (classify_single_event cfg row ctx)\<rparr>)"

definition stage_of :: "nat \<times> classified_event \<Rightarrow> string \<times> rat" where
  \<comment> \<open>the stage and the confidence written in a row\<close>
  "stage_of r = (funnel_stage (snd r), stage_confidence (snd r))"

definition classified :: "event \<Rightarrow> string \<Rightarrow> rat \<Rightarrow> string \<Rightarrow> classified_event" where
  \<comment> \<open>an event with the three columns of the classifier\<close>
  "classified e stage confidence category =
     event.extend e (classified_event.fields stage confidence category)"

section \<open>Example frames\<close>

definition mk_event :: "string \<Rightarrow> string \<Rightarrow> string \<Rightarrow> string \<Rightarrow> nat \<Rightarrow> event" where
  "mk_event u n p s t =
     \<lparr>userPseudoId = u, sessionId = ''s1'', eventName = n, pagePath = p, sessionSource = s,
      sessionMedium = ''organic'', deviceCategory = ''desktop'', country = ''KR'',
      eventTimestamp = t, engagementTimeMsec = None\<rparr>"

definition scenario :: "(nat \<times> event) list" where
  \<comment> \<open>user A: session start, a post, the sign-up; user B: a session start only\<close>
  "scenario =
     [(0, mk_event ''A'' ''session_start'' ''/'' ''google'' 0),
      (1, mk_event ''A'' ''page_view'' ''/posts/5'' ''google'' 1),
      (2, mk_event ''A'' conversion_event_name ''/provider-join'' ''google'' 2),
      (3, mk_event ''B'' ''session_start'' ''/'' ''google'' 0)]"

definition landing_signup :: "(nat \<times> event) list" where
  \<comment> \<open>a visitor from a search engine whose one recorded event is the sign-up, on the home page\<close>
  "landing_signup = [(0, mk_event ''C'' conversion_event_name ''/'' ''google'' 0)]"

definition interest_heavy :: "(nat \<times> event) list" where
  \<comment> \<open>two direct visitors who read a post each, and one search visitor who only arrives\<close>
  "interest_heavy =
     [(0, mk_event ''U1'' ''user_engagement'' ''/posts/1'' ''(direct)'' 0),
      (1, mk_event ''U2'' ''user_engagement'' ''/posts/2'' ''(direct)'' 0),
      (2, mk_event ''U3'' ''session_start'' ''/'' ''google'' 0)]"

section \<open>Conversion calculator (conversion\_calculator.py)\<close>

text \<open>
  The calculator is handed a data frame that may lack columns, and an empty frame from the
  loader has none at all, so a frame carries the names of its columns beside its rows. The
  cell of a row in a column the frame does not have is never read: the access raises
  \<^verbatim>\<open>KeyError\<close> first. An outcome \<open>Inl\<close> is an exception that leaves the function, or
  (\<open>NanOrInf\<close>) a division of a numpy number by zero, which Python lets pass with a
  warning and the model does not follow further.
\<close>

datatype py_error = KeyError string | IndexError | ZeroDivisionError | NanOrInf

record frame =
  columns :: "string list"
  rows :: "(nat \<times> classified_event) list"

definition df_empty :: "frame \<Rightarrow> bool" where
  \<comment> \<open>\<^verbatim>\<open>DataFrame.empty\<close>: one of the two axes has length 0\<close>
  "df_empty df = (columns df = [] \<or> rows df = [])"

definition need :: "string \<Rightarrow> frame \<Rightarrow> py_error + 'a \<Rightarrow> py_error + 'a" where
  \<comment> \<open>go on if the frame has the column, raise \<^verbatim>\<open>KeyError\<close> if not\<close>
  "need c df k = (if c \<in> set (columns df) then k else Inl (KeyError c))"

fun traverse :: "('a \<Rightarrow> py_error + 'b) \<Rightarrow> 'a list \<Rightarrow> py_error + 'b list" where
  \<comment> \<open>a \<^verbatim>\<open>for\<close> loop that appends one result per pass and ends at the first exception\<close>
  "traverse f [] = Inr []"
| "traverse f (x # xs) =
     (case f x of
        Inl e \<Rightarrow> Inl e
      | Inr y \<Rightarrow> (case traverse f xs of Inl e \<Rightarrow> Inl e | Inr ys \<Rightarrow> Inr (y # ys)))"

definition groupby :: "('r \<Rightarrow> 'k::linorder) \<Rightarrow> 'r list \<Rightarrow> ('k \<times> 'r list) list" where
  \<comment> \<open>the groups with their keys, in ascending key order, rows in frame order\<close>
  "groupby key df =
     map (\<lambda>k. (k, filter (\<lambda>row. key row = k) df)) (sort (remdups (map key df)))"

definition percentage :: "nat \<Rightarrow> nat \<Rightarrow> rat" where
  \<comment> \<open>\<^verbatim>\<open>part / whole * 100\<close> where the caller knows \<open>whole\<close> to be nonzero\<close>
  "percentage part whole = fmul (fdiv (of_nat part) (of_nat whole)) 100"

definition py_percentage :: "nat \<Rightarrow> nat \<Rightarrow> py_error + rat" where
  \<comment> \<open>\<^verbatim>\<open>part / whole * 100\<close> on two Python integers\<close>
  "py_percentage part whole =
     (if whole = 0 then Inl ZeroDivisionError else Inr (percentage part whole))"

definition np_percentage :: "nat \<Rightarrow> nat \<Rightarrow> py_error + rat" where
  \<comment> \<open>\<^verbatim>\<open>part / whole * 100\<close> where \<open>part\<close> is the numpy integer that \<^verbatim>\<open>.sum()\<close> returns\<close>
  "np_percentage part whole =
     (if whole = 0 then Inl NanOrInf else Inr (percentage part whole))"

definition has_conversion :: "(nat \<times> classified_event) list \<Rightarrow> bool" where
  \<comment> \<open>\<^verbatim>\<open>'CONVERSION' in x.values\<close>\<close>
  "has_conversion user_events =
     (''CONVERSION'' \<in> set (map (\<lambda>row. funnel_stage (snd row)) user_events))"

definition mode :: "'a::linorder list \<Rightarrow> 'a option" where
  \<comment> \<open>\<^verbatim>\<open>x.mode().iloc[0]\<close>: the least of the most frequent values; \<open>None\<close> where
      \<^verbatim>\<open>x.mode()\<close> is empty\<close>
  "mode xs =
     (case sort (remdups xs) of
        [] \<Rightarrow> None
      | v # vs \<Rightarrow>
          (let best = Max (set (map (count_list xs) (v # vs)))
           in find (\<lambda>w. count_list xs w = best) (v # vs)))"

subsection \<open>Stage conversions\<close>

record progression =
  user_id :: string
  reached_awareness :: bool
  reached_interest :: bool
  reached_consideration :: bool
  reached_conversion :: bool
  total_events :: nat
  unique_pages :: nat
  first_source :: string
  first_medium :: string

definition progression_of :: "frame \<Rightarrow> string \<times> (nat \<times> classified_event) list \<Rightarrow> py_error + progression" where
  \<comment> \<open>the body of the loop over the users' groups\<close>
  "progression_of classified_df =
     (\<lambda>(user_id, user_events).
        need ''funnel_stage'' classified_df
          (let stages = remdups (map (\<lambda>row. funnel_stage (snd row)) user_events)
           in need ''pagePath'' classified_df
                (case user_events of
                   [] \<Rightarrow> Inl IndexError
                 | first # _ \<Rightarrow>
                     need ''sessionSource'' classified_df
                       (need ''sessionMedium'' classified_df
                          (Inr \<lparr>user_id = user_id,
                                reached_awareness = (''AWARENESS'' \<in> set stages),
                                reached_interest = (''INTEREST'' \<in> set stages),
                                reached_consideration = (''CONSIDERATION'' \<in> set stages),
                                reached_conversion = (''CONVERSION'' \<in> set stages),
                                total_events = length user_events,
                                unique_pages =
                                  length (remdups (map (\<lambda>row. pagePath (snd row)) user_events)),
                                first_source = sessionSource (snd first),
                                first_medium = sessionMedium (snd first)\<rparr>)))))"

definition get_user_progression :: "frame \<Rightarrow> py_error + progression list" where
  "get_user_progression classified_df =
     need ''userPseudoId'' classified_df
       (traverse (progression_of classified_df)
          (groupby (\<lambda>row. userPseudoId (snd row)) (rows classified_df)))"

record stage_counts =
  awareness :: nat
  interest :: nat
  consideration :: nat
  conversion :: nat

record stage_rates =
  awareness_rate :: rat
  interest_rate :: rat
  consideration_rate :: rat
  stage_conversion_rate :: rat

record step_conversions =
  awareness_to_interest :: rat
  interest_to_consideration :: rat
  consideration_to_conversion :: rat

record conversion_rates =
  stage_total_users :: nat
  stage_counts :: stage_counts
  stage_rates :: stage_rates
  step_conversions :: step_conversions
  overall_conversion :: rat

datatype stage_result = Error_dict string | Conversion_rates conversion_rates

definition no_data_message :: string where
  \<comment> \<open>the UTF-8 bytes of the Korean message under the key \<^verbatim>\<open>'error'\<close>\<close>
  "no_data_message =
     [CHR 0xEB, CHR 0xB6, CHR 0x84, CHR 0xEB, CHR 0xA5, CHR 0x98, CHR 0xEB, CHR 0x90, CHR 0x9C,
      CHR 0x20, CHR 0xEB, CHR 0x8D, CHR 0xB0, CHR 0xEC, CHR 0x9D, CHR 0xB4, CHR 0xED, CHR 0x84,
      CHR 0xB0, CHR 0xEA, CHR 0xB0, CHR 0x80, CHR 0x20, CHR 0xEC, CHR 0x97, CHR 0x86, CHR 0xEC,
      CHR 0x8A, CHR 0xB5, CHR 0xEB, CHR 0x8B, CHR 0x88, CHR 0xEB, CHR 0x8B, CHR 0xA4]"

definition calculate_stage_conversions :: "frame \<Rightarrow> frame \<Rightarrow> py_error + stage_result" where
  "calculate_stage_conversions classified_df conversion_events =
     (if df_empty classified_df then Inr (Error_dict no_data_message)
      else
        (case get_user_progression classified_df of
           Inl e \<Rightarrow> Inl e
         | Inr user_progression \<Rightarrow>
             (let stage_counts =
                    \<lparr>awareness = length (filter reached_awareness user_progression),
                     interest = length (filter reached_interest user_progression),
                     consideration = length (filter reached_consideration user_progression),
                     conversion = length (filter reached_conversion user_progression)\<rparr>;
                  total_users = length user_progression
              in if total_users = 0 then Inl ZeroDivisionError
                 else Inr (Conversion_rates
                   \<lparr>stage_total_users = total_users,
                    stage_counts = stage_counts,
                    stage_rates =
                      \<lparr>awareness_rate = percentage (awareness stage_counts) total_users,
                       interest_rate = percentage (interest stage_counts) total_users,
                       consideration_rate = percentage (consideration stage_counts) total_users,
                       stage_conversion_rate = percentage (conversion stage_counts) total_users\<rparr>,
                    step_conversions =
                      \<lparr>awareness_to_interest =
                         (if awareness stage_counts > 0
                          then percentage (interest stage_counts) (awareness stage_counts)
                          else 0),
                       interest_to_consideration =
                         (if interest stage_counts > 0
                          then percentage (consideration stage_counts) (interest stage_counts)
                          else 0),
                       consideration_to_conversion =
                         (if consideration stage_counts > 0
                          then percentage (conversion stage_counts) (consideration stage_counts)
                          else 0)\<rparr>,
                    overall_conversion = percentage (conversion stage_counts) total_users\<rparr>))))"

subsection \<open>Conversions by source, content, device and time\<close>

definition assess_traffic_quality :: "rat \<Rightarrow> nat \<Rightarrow> string" where
  "assess_traffic_quality conversion_rate volume =
     (if conversion_rate \<ge> 20 \<and> volume \<ge> 50 then ''Premium''
      else if conversion_rate \<ge> 10 \<and> volume \<ge> 100 then ''High''
      else if conversion_rate \<ge> 5 \<and> volume \<ge> 200 then ''Medium''
      else if conversion_rate \<ge> 2 then ''Low''
      else ''Poor'')"

definition assess_content_effectiveness :: "rat \<Rightarrow> nat \<Rightarrow> string" where
  "assess_content_effectiveness conversion_rate volume =
     (if conversion_rate \<ge> 30 \<and> volume \<ge> 20 then ''Excellent''
      else if conversion_rate \<ge> 15 \<and> volume \<ge> 50 then ''Good''
      else if conversion_rate \<ge> 8 \<and> volume \<ge> 100 then ''Average''
      else if conversion_rate \<ge> 3 then ''Below Average''
      else ''Poor'')"

record rate_row =
  total_users :: nat
  conversions :: nat
  conversion_rate :: rat

definition sort_by_rate :: "'a rate_row_scheme list \<Rightarrow> py_error + 'a rate_row_scheme list" where
  \<comment> \<open>\<^verbatim>\<open>pd.DataFrame(records).sort_values('conversion_rate', ascending=False)\<close>: a frame
      built from no records has no columns, and sorting it by one raises\<close>
  "sort_by_rate records =
     (if records = [] then Inl (KeyError ''conversion_rate'')
      else Inr (sort_key (\<lambda>r. - conversion_rate r) records))"

definition first_value ::
  "(classified_event \<Rightarrow> 'v) \<Rightarrow> (nat \<times> classified_event) list \<Rightarrow> 'v option" where
  \<comment> \<open>the aggregation \<^verbatim>\<open>'first'\<close>; \<open>None\<close> is NaN\<close>
  "first_value col user_events =
     (case user_events of [] \<Rightarrow> None | first # _ \<Rightarrow> Some (col (snd first)))"

record source_row = rate_row +
  source :: string
  medium :: string
  source_medium :: string
  traffic_group :: string
  traffic_quality :: string

definition source_row_of ::
  "config \<Rightarrow> (string \<times> string) \<times> ((string \<times> string) \<times> bool) list \<Rightarrow> py_error + source_row" where
  \<comment> \<open>the body of the loop over the groups of one source and medium\<close>
  "source_row_of cfg =
     (\<lambda>((source, medium), group).
        (let total_users = length group;
             conversions = length (filter snd group)
         in case np_percentage conversions total_users of
              Inl e \<Rightarrow> Inl e
            | Inr rate \<Rightarrow>
                Inr \<lparr>total_users = total_users,
                     conversions = conversions,
                     conversion_rate = rate,
                     source = source,
                     medium = medium,
                     source_medium = source @ '' / '' @ medium,
                     traffic_group = get_traffic_group cfg source medium,
                     traffic_quality = assess_traffic_quality rate total_users\<rparr>))"

definition calculate_source_conversions :: "config \<Rightarrow> frame \<Rightarrow> py_error + source_row list" where
  "calculate_source_conversions cfg classified_df =
     need ''userPseudoId'' classified_df
       (need ''sessionSource'' classified_df
          (need ''sessionMedium'' classified_df
             (need ''funnel_stage'' classified_df
                (let user_sources =
                       map (\<lambda>(user_id, user_events).
                              (first_value sessionSource user_events,
                               first_value sessionMedium user_events,
                               has_conversion user_events))
                         (groupby (\<lambda>row. userPseudoId (snd row)) (rows classified_df));
                     keyed =
                       List.map_filter
                         (\<lambda>(s, m, converted).
                            case s of
                              None \<Rightarrow> None
                            | Some s' \<Rightarrow>
                                (case m of None \<Rightarrow> None | Some m' \<Rightarrow> Some ((s', m'), converted)))
                         user_sources;
                     source_groups = groupby fst keyed
                 in case traverse (source_row_of cfg) source_groups of
                      Inl e \<Rightarrow> Inl e
                    | Inr source_conversions \<Rightarrow> sort_by_rate source_conversions))))"

definition classify_content_type :: "string \<Rightarrow> string" where
  "classify_content_type page_path =
     (if str_contains ''/posts/'' page_path then ''Blog Post''
      else if str_contains ''/skill-guide/'' page_path
      then (if str_contains ''one-click'' page_path then ''Product Guide''
            else if str_contains ''market-management'' page_path then ''Management Guide''
            else ''General Guide'')
      else ''Other Content'')"

definition mean :: "nat list \<Rightarrow> rat option" where
  \<comment> \<open>\<^verbatim>\<open>Series.mean()\<close>; \<open>None\<close> is the NaN of an empty series\<close>
  "mean xs = (if xs = [] then None else Some (fdiv (of_nat (sum_list xs)) (of_nat (length xs))))"

record content_row = rate_row +
  page_path :: string
  content_type :: string
  avg_interactions :: "rat option"
  content_effectiveness :: string

definition content_row_of :: "string list \<Rightarrow> string \<times> (string \<times> string \<times> nat) list \<Rightarrow> content_row" where
  \<comment> \<open>the body of the loop over the groups of one page\<close>
  "content_row_of converted_users =
     (\<lambda>(page_path, page_group).
        (let users = remdups (map fst page_group);
             total_users = length users;
             conversions = length (filter (\<lambda>user. user \<in> set converted_users) users);
             rate = (if total_users > 0 then percentage conversions total_users else 0)
         in \<lparr>total_users = total_users,
             conversions = conversions,
             conversion_rate = rate,
             page_path = page_path,
             content_type = classify_content_type page_path,
             avg_interactions = mean (map (\<lambda>entry. snd (snd entry)) page_group),
             content_effectiveness = assess_content_effectiveness rate total_users\<rparr>))"

definition calculate_content_conversions :: "frame \<Rightarrow> py_error + content_row list" where
  "calculate_content_conversions classified_df =
     need ''pagePath'' classified_df
       (let content_events =
              filter (\<lambda>row. str_contains ''/posts/'' (pagePath (snd row))
                          \<or> str_contains ''/skill-guide/'' (pagePath (snd row)))
                (rows classified_df)
        in if content_events = [] then Inr []
           else
             need ''userPseudoId'' classified_df
               (let user_content =
                      map (\<lambda>(key, group). (fst key, snd key, length group))
                        (groupby (\<lambda>row. (userPseudoId (snd row), pagePath (snd row)))
                           content_events)
                in need ''funnel_stage'' classified_df
                     (let converted_users =
                            remdups (map (\<lambda>row. userPseudoId (snd row))
                              (filter (\<lambda>row. funnel_stage (snd row) = ''CONVERSION'')
                                 (rows classified_df)));
                          content_conversions =
                            map (content_row_of converted_users)
                              (groupby (\<lambda>entry. fst (snd entry)) user_content)
                      in sort_by_rate content_conversions)))"

record device_row = rate_row +
  device_category :: string
  user_share :: rat

definition device_row_of :: "nat \<Rightarrow> string \<times> (string \<times> bool) list \<Rightarrow> py_error + device_row" where
  \<comment> \<open>the body of the loop over the groups of one device, given \<^verbatim>\<open>len(user_devices)\<close>\<close>
  "device_row_of all_users =
     (\<lambda>(device, group).
        (let total_users = length group;
             conversions = length (filter snd group)
         in case np_percentage conversions total_users of
              Inl e \<Rightarrow> Inl e
            | Inr rate \<Rightarrow>
                (case py_percentage total_users all_users of
                   Inl e \<Rightarrow> Inl e
                 | Inr share \<Rightarrow>
                     Inr \<lparr>total_users = total_users,
                          conversions = conversions,
                          conversion_rate = rate,
                          device_category = device,
                          user_share = share\<rparr>)))"

definition calculate_device_conversions :: "frame \<Rightarrow> py_error + device_row list" where
  "calculate_device_conversions classified_df =
     (if ''deviceCategory'' \<notin> set (columns classified_df) then Inr []
      else
        need ''userPseudoId'' classified_df
          (need ''funnel_stage'' classified_df
             (let user_devices =
                    map (\<lambda>(user_id, user_events).
                           (case mode (map (\<lambda>row. deviceCategory (snd row)) user_events) of
                              None \<Rightarrow> ''unknown''
                            | Some device \<Rightarrow> device,
                            has_conversion user_events))
                      (groupby (\<lambda>row. userPseudoId (snd row)) (rows classified_df))
              in case traverse (device_row_of (length user_devices)) (groupby fst user_devices) of
                   Inl e \<Rightarrow> Inl e
                 | Inr device_conversions \<Rightarrow> sort_by_rate device_conversions)))"

text \<open>
  The hour and the name of the day of a timestamp are what \<^verbatim>\<open>pd.to_datetime\<close> and its
  \<^verbatim>\<open>dt\<close> accessor compute; the calculator takes both as given.
\<close>

record clock =
  hour_of :: "nat \<Rightarrow> nat"
  day_name_of :: "nat \<Rightarrow> string"

record hourly_row = rate_row +
  hour :: nat

record daily_row = rate_row +
  day_of_week :: string

datatype time_result = Empty_dict | Time_analysis "hourly_row list" "daily_row list"

definition bucket_rate :: "('k \<times> bool) list \<Rightarrow> rate_row" where
  \<comment> \<open>the counts and the rate of the users of one bucket, which the caller has found
      not to be empty\<close>
  "bucket_rate users =
     \<lparr>total_users = length users,
      conversions = length (filter snd users),
      conversion_rate = percentage (length (filter snd users)) (length users)\<rparr>"

definition hours_of_day :: "nat list" where
  \<comment> \<open>\<^verbatim>\<open>range(24)\<close>\<close>
  "hours_of_day = [0..<24]"

definition days_of_week :: "string list" where
  "days_of_week =
     [''Monday'', ''Tuesday'', ''Wednesday'', ''Thursday'', ''Friday'', ''Saturday'', ''Sunday'']"

definition calculate_time_based_conversions :: "clock \<Rightarrow> frame \<Rightarrow> py_error + time_result" where
  "calculate_time_based_conversions clk classified_df =
     (if ''eventTimestamp'' \<notin> set (columns classified_df) then Inr Empty_dict
      else
        need ''userPseudoId'' classified_df
          (need ''funnel_stage'' classified_df
             (let user_times =
                    map (\<lambda>(user_id, user_events).
                           (case mode (map (\<lambda>row. hour_of clk (eventTimestamp (snd row)))
                                         user_events) of
                              None \<Rightarrow> 12
                            | Some h \<Rightarrow> h,
                            case mode (map (\<lambda>row. day_name_of clk (eventTimestamp (snd row)))
                                         user_events) of
                              None \<Rightarrow> ''Monday''
                            | Some d \<Rightarrow> d,
                            has_conversion user_events))
                      (groupby (\<lambda>row. userPseudoId (snd row)) (rows classified_df));
                  hourly_conversions =
                    concat (map (\<lambda>hour.
                        (let hour_users =
                               map (\<lambda>u. (fst u, snd (snd u)))
                                 (filter (\<lambda>u. fst u = hour) user_times)
                         in if length hour_users > 0
                            then [rate_row.extend (bucket_rate hour_users)
                                    (hourly_row.fields hour)]
                            else []))
                      hours_of_day);
                  daily_conversions =
                    concat (map (\<lambda>day.
                        (let day_users =
                               map snd (filter (\<lambda>u. fst (snd u) = day) user_times)
                         in if length day_users > 0
                            then [rate_row.extend (bucket_rate day_users)
                                    (daily_row.fields day)]
                            else []))
                      days_of_week)
              in Inr (Time_analysis hourly_conversions daily_conversions))))"

definition classified_columns :: "string list" where
  \<comment> \<open>the columns of a frame that the loader filled and the classifier annotated\<close>
  "classified_columns =
     [''userPseudoId'', ''sessionId'', ''eventName'', ''pagePath'', ''sessionSource'',
      ''sessionMedium'', ''deviceCategory'', ''country'', ''eventTimestamp'',
      ''engagementTimeMsec'', ''funnel_stage'', ''stage_confidence'', ''page_category'']"

definition classified_frame :: "(nat \<times> classified_event) list \<Rightarrow> frame" where
  "classified_frame df = \<lparr>columns = classified_columns, rows = df\<rparr>"

definition no_columns :: frame where
  \<comment> \<open>\<^verbatim>\<open>pd.DataFrame()\<close>, which the loader returns for a response without rows and the
      classifier passes on\<close>
  "no_columns = \<lparr>columns = [], rows = []\<rparr>"

definition no_rows :: frame where
  \<comment> \<open>a classified frame from which every row has been filtered away\<close>
  "no_rows = classified_frame []"

section \<open>Rounding to binary64 is monotone\<close>

text \<open>
  Nothing below depends on the digits of a rounded number: only on rounding being monotone
  and leaving 0, 1 and 100 as they are.
\<close>

lemma round_half_even_bounds: "\<lfloor>q\<rfloor> \<le> round_half_even q \<and> round_half_even q \<le> \<lceil>q\<rceil>"
  unfolding round_half_even_def Let_def
  by (auto simp: ceiling_altdef le_floor_iff)

lemma round_half_even_of_int [simp]: "round_half_even (of_int n) = n"
  by (simp add: round_half_even_def)

lemma round_half_even_mono:
  assumes "q \<le> q'" shows "round_half_even q \<le> round_half_even q'"
proof (cases "\<lfloor>q\<rfloor> = \<lfloor>q'\<rfloor>")
  case True
  with assms show ?thesis
    unfolding round_half_even_def Let_def by auto
next
  case False
  with assms have "\<lfloor>q\<rfloor> < \<lfloor>q'\<rfloor>"
    by (simp add: floor_mono order.strict_iff_order)
  then have "\<lceil>q\<rceil> \<le> \<lfloor>q'\<rfloor>"
    by (smt (verit) ceiling_altdef)
  then show ?thesis
    using round_half_even_bounds [of q] round_half_even_bounds [of q'] by linarith
qed


lemma floor_log2_bounds:
  assumes "0 < x"
  shows "2 powi (floor_log2 x) \<le> x \<and> x < 2 powi (floor_log2 x + 1)"
proof (cases "1 \<le> x")
  case True
  define m where "m = \<lfloor>x\<rfloor>"
  have m: "0 < m" using True by (simp add: m_def)
  then have b: "1 \<le> bitlen m" by (simp add: bitlen_alt_def)
  from bitlen_bounds [OF m]
  have lo: "2 ^ nat (bitlen m - 1) \<le> m" and hi: "m < 2 ^ nat (bitlen m)" by simp_all
  have "(2::rat) ^ nat (bitlen m - 1) \<le> of_int m"
    using lo by (metis of_int_le_iff of_int_numeral of_int_power)
  also have "\<dots> \<le> x" by (simp add: m_def)
  finally have 1: "(2::rat) ^ nat (bitlen m - 1) \<le> x" .
  have "m + 1 \<le> 2 ^ nat (bitlen m)" using hi by simp
  then have "(of_int (m + 1) :: rat) \<le> 2 ^ nat (bitlen m)"
    by (metis of_int_le_iff of_int_numeral of_int_power)
  moreover have "x < of_int (m + 1)" unfolding m_def by linarith
  ultimately have 2: "x < (2::rat) ^ nat (bitlen m)" by linarith
  have e: "floor_log2 x = bitlen m - 1" using True by (simp add: floor_log2_def m_def)
  show ?thesis
    using 1 2 b by (simp add: e power_int_def)
next
  case False
  define m where "m = \<lceil>1 / x\<rceil> - 1"
  define k where "k = bitlen m"
  have y: "1 < 1 / x" using False assms by simp
  then have m: "0 < m" unfolding m_def by linarith
  then have b: "1 \<le> k" by (simp add: bitlen_alt_def k_def)
  from bitlen_bounds [OF m]
  have lo: "2 ^ nat (k - 1) \<le> m" and hi: "m < 2 ^ nat k" by (simp_all add: k_def)
  have "(2::rat) ^ nat (k - 1) \<le> of_int m"
    using lo by (metis of_int_le_iff of_int_numeral of_int_power)
  also have "\<dots> < 1 / x" unfolding m_def by linarith
  finally have 1: "(2::rat) ^ nat (k - 1) < 1 / x" .
  have "m + 1 \<le> 2 ^ nat k" using hi by simp
  then have "(of_int (m + 1) :: rat) \<le> 2 ^ nat k"
    by (metis of_int_le_iff of_int_numeral of_int_power)
  moreover have "1 / x \<le> of_int (m + 1)" unfolding m_def by linarith
  ultimately have 2: "1 / x \<le> (2::rat) ^ nat k" by linarith
  have e: "floor_log2 x = - k" using False by (simp add: floor_log2_def m_def k_def)
  have p1: "2 powi (- k) = 1 / (2::rat) ^ nat k"
    using b by (simp add: power_int_def field_simps)
  have p2: "2 powi (1 - k) = 1 / (2::rat) ^ nat (k - 1)"
    using b by (simp add: power_int_def field_simps nat_diff_distrib)
  have "1 / (2::rat) ^ nat k \<le> x"
    using 2 assms by (simp add: field_simps)
  moreover have "x < 1 / (2::rat) ^ nat (k - 1)"
    using 1 assms by (simp add: field_simps)
  ultimately show ?thesis by (simp add: e p1 p2)
qed

lemma ulp_pos: "0 < ulp x"
  by (simp add: ulp_def)

lemma float64_binade:
  assumes "0 < x"
  shows "2 powi (floor_log2 x) \<le> float64 x \<and> float64 x \<le> 2 powi (floor_log2 x + 1)"
proof -
  define e where "e = floor_log2 x"
  define u :: rat where "u = 2 powi (e - 52)"
  have u: "0 < u" by (simp add: u_def)
  have ux: "ulp x = u" using assms by (simp add: ulp_def u_def e_def)
  have lo: "2 powi e = 2 ^ 52 * u" and hi: "2 powi (e + 1) = 2 ^ 53 * u"
    by (simp_all add: u_def power_int_diff power_int_add)
  from floor_log2_bounds [OF assms]
  have "2 ^ 52 * u \<le> x" and "x \<le> 2 ^ 53 * u" by (simp_all add: e_def [symmetric] lo hi)
  then have q: "of_int (2 ^ 52) \<le> x / u" "x / u \<le> of_int (2 ^ 53)"
    using u by (simp_all add: field_simps)
  have "round_half_even (of_int (2 ^ 52)) \<le> round_half_even (x / u)"
    and "round_half_even (x / u) \<le> round_half_even (of_int (2 ^ 53))"
    using q by (simp_all only: round_half_even_mono)
  then have "2 ^ 52 \<le> round_half_even (x / u)" and "round_half_even (x / u) \<le> 2 ^ 53"
    by (simp_all only: round_half_even_of_int)
  then have "(2 ^ 52 :: rat) \<le> of_int (round_half_even (x / u))"
    and "(of_int (round_half_even (x / u)) :: rat) \<le> 2 ^ 53"
    by (metis of_int_le_iff of_int_numeral of_int_power)+
  then have "2 ^ 52 * u \<le> of_int (round_half_even (x / u)) * u"
    and "of_int (round_half_even (x / u)) * u \<le> 2 ^ 53 * u"
    using u by simp_all
  then show ?thesis
    using assms by (simp add: float64_def ux e_def [symmetric] lo hi)
qed

lemma floor_log2_mono:
  assumes "0 < x" "x \<le> y"
  shows "floor_log2 x \<le> floor_log2 y"
proof (rule ccontr)
  assume "\<not> ?thesis"
  then have "floor_log2 y + 1 \<le> floor_log2 x" by simp
  then have "(2::rat) powi (floor_log2 y + 1) \<le> 2 powi (floor_log2 x)"
    by (intro power_int_increasing) simp_all
  moreover have "0 < y" using assms by simp
  ultimately show False
    using floor_log2_bounds [OF assms(1)] floor_log2_bounds [of y] assms(2) by linarith
qed

lemma float64_nonneg: "0 \<le> x \<Longrightarrow> 0 \<le> float64 x"
proof (cases "x = 0")
  case False
  assume "0 \<le> x"
  with False have "0 < x" by simp
  from float64_binade [OF this] have "2 powi (floor_log2 x) \<le> float64 x" ..
  moreover have "(0::rat) < 2 powi (floor_log2 x)" by simp
  ultimately show ?thesis by linarith
qed (simp add: float64_def)

lemma float64_mono:
  assumes "0 \<le> x" "x \<le> y"
  shows "float64 x \<le> float64 y"
proof (cases "x = 0")
  case True
  then show ?thesis using assms float64_nonneg [of y] by (simp add: float64_def)
next
  case False
  then have x: "0 < x" and y: "0 < y" using assms by simp_all
  show ?thesis
  proof (cases "floor_log2 x = floor_log2 y")
    case True
    then have u: "ulp x = ulp y" using x y by (simp add: ulp_def)
    have "x / ulp y \<le> y / ulp y"
      using assms ulp_pos [of y] by (simp add: divide_right_mono)
    then have "round_half_even (x / ulp y) \<le> round_half_even (y / ulp y)"
      by (rule round_half_even_mono)
    then have "(of_int (round_half_even (x / ulp y)) :: rat) * ulp y
                 \<le> of_int (round_half_even (y / ulp y)) * ulp y"
      using ulp_pos [of y] by simp
    then show ?thesis using x y by (simp add: float64_def u)
  next
    case False
    with floor_log2_mono [OF x assms(2)]
    have "floor_log2 x + 1 \<le> floor_log2 y" by simp
    then have "(2::rat) powi (floor_log2 x + 1) \<le> 2 powi (floor_log2 y)"
      by (intro power_int_increasing) simp_all
    then show ?thesis
      using float64_binade [OF x] float64_binade [OF y] by linarith
  qed
qed

lemma float64_1: "float64 1 = 1"
  by code_simp

lemma float64_100: "float64 100 = 100"
  by code_simp

lemma float64_le_1: "0 \<le> x \<Longrightarrow> x \<le> 1 \<Longrightarrow> float64 x \<le> 1"
  using float64_mono [of x 1] by (simp add: float64_1)

lemma fadd_nonneg: "0 \<le> x \<Longrightarrow> 0 \<le> y \<Longrightarrow> 0 \<le> fadd x y"
  by (simp add: fadd_def float64_nonneg)

section \<open>Page categories\<close>

lemma startswith_take: "startswith s p \<longleftrightarrow> take (length p) s = p"
  by (induction s p rule: startswith.induct) auto

lemma endswith_star: "endswith pattern ''*'' \<longleftrightarrow> pattern \<noteq> [] \<and> last pattern = CHR ''*''"
  by (cases pattern rule: rev_cases) (simp_all add: endswith_def)

lemma match_patterns_iff:
  "match_patterns patterns s = list_ex (\<lambda>pattern. pattern_matches pattern s) patterns"
  by (induction patterns)
     (auto simp: pattern_matches_def endswith_star startswith_take Let_def)

lemma lookup_category_find:
  "lookup_category table s =
     (case find (\<lambda>entry. list_ex (\<lambda>pattern. pattern_matches pattern s) (snd entry)) table of
        None \<Rightarrow> ''other''
      | Some entry \<Rightarrow> fst entry)"
  by (induction table s rule: lookup_category.induct) (simp_all add: match_patterns_iff)

text \<open>
  C2, as the code has it. With the pattern table \<open>{"content": ["/posts/*"]}\<close> the path
  \<open>/posts/123\<close> is in category \<open>content\<close> and \<open>/other\<close> is in \<open>other\<close>, but
  \<open>/posts\<close> is in \<open>other\<close> too: the prefix that is compared is the pattern without its
  \<open>*\<close>, here \<open>/posts/\<close> with its slash. In general the category of a path is the name
  of the first entry of the table, in iteration order, one of whose patterns matches, and
  \<open>other\<close> when none does; a pattern that ends in \<open>*\<close> matches the paths that start with
  the pattern minus the \<open>*\<close>, any other pattern matches the path equal to it.
\<close>

theorem get_page_category_first_match:
  "get_page_category (cfg\<lparr>page_categories := [(''content'', [''/posts/*''])]\<rparr>) ''/posts/123''
     = ''content''
   \<and> get_page_category (cfg\<lparr>page_categories := [(''content'', [''/posts/*''])]\<rparr>) ''/other''
     = ''other''
   \<and> get_page_category (cfg\<lparr>page_categories := [(''content'', [''/posts/*''])]\<rparr>) ''/posts''
     = ''other''
   \<and> get_page_category cfg path =
       (case find (\<lambda>entry. list_ex (\<lambda>pattern. pattern_matches pattern path) (snd entry))
               (page_categories cfg) of
          None \<Rightarrow> ''other''
        | Some entry \<Rightarrow> fst entry)"
  by (simp add: get_page_category_def lookup_category_find pattern_matches_def)

theorem get_page_category_posts_counterexample:
  "get_page_category (default_config\<lparr>page_categories := [(''content'', [''/posts/*''])]\<rparr>)
     ''/posts'' \<noteq> ''content''"
  by (simp add: get_page_category_def endswith_def)

section \<open>The classification of one event\<close>

lemma bump_nonneg:
  "0 \<le> c \<Longrightarrow> 0 \<le> w \<Longrightarrow> 0 \<le> (if b then fadd c (float64 w) else c)"
  by (simp add: fadd_nonneg float64_nonneg)

lemma awareness_conditions_range:
  "0 \<le> awareness_conditions ev ctx sc \<and> awareness_conditions ev ctx sc \<le> 1"
  by (simp add: awareness_conditions_def Let_def bump_nonneg split: list.split split del: if_split)

lemma interest_conditions_range:
  "0 \<le> interest_conditions cfg ev ctx sc \<and> interest_conditions cfg ev ctx sc \<le> 1"
  by (simp add: interest_conditions_def Let_def bump_nonneg split: option.split split del: if_split)

lemma consideration_conditions_range:
  "0 \<le> consideration_conditions ev ctx sc \<and> consideration_conditions ev ctx sc \<le> 1"
  by (simp add: consideration_conditions_def Let_def bump_nonneg split del: if_split)

lemma conversion_conditions_range:
  "0 \<le> conversion_conditions ev ctx sc \<and> conversion_conditions ev ctx sc \<le> 1"
  by (simp add: conversion_conditions_def Let_def fadd_nonneg float64_nonneg)



lemma highest_confidence_four:
  fixes a i c v :: rat
  assumes "0 \<le> a" "0 \<le> i" "0 \<le> c" "0 \<le> v"
  shows "highest_confidence [(n1, a), (n2, i), (n3, c), (n4, v)] =
           (if a < i
            then (if i < c then (if c < v then (n4, v) else (n3, c))
                  else (if i < v then (n4, v) else (n2, i)))
            else if 0 < a
            then (if a < c then (if c < v then (n4, v) else (n3, c))
                  else (if a < v then (n4, v) else (n1, a)))
            else (if 0 < c then (if c < v then (n4, v) else (n3, c))
                  else (if 0 < v then (n4, v) else (''UNKNOWN'', 0))))"
  using assms by (auto simp: highest_confidence_def max_def Let_def)

lemma fold_four:
  assumes "0 \<le> f1 ev ctx s1" "0 \<le> f2 ev ctx s2" "0 \<le> f3 ev ctx s3" "0 \<le> f4 ev ctx s4"
  shows "fold (classify_step ev ctx) [(n1, s1, f1), (n2, s2, f2), (n3, s3, f3), (n4, s4, f4)]
     (''UNKNOWN'', 0) =
     highest_confidence
       [(n1, f1 ev ctx s1), (n2, f2 ev ctx s2), (n3, f3 ev ctx s3), (n4, f4 ev ctx s4)]"
proof -
  define a i c v where "a = f1 ev ctx s1" and "i = f2 ev ctx s2"
    and "c = f3 ev ctx s3" and "v = f4 ev ctx s4"
  note defs = a_def i_def c_def v_def
  have nn: "0 \<le> a" "0 \<le> i" "0 \<le> c" "0 \<le> v"
    using assms by (simp_all add: defs)
  have "fold (classify_step ev ctx) [(n1, s1, f1), (n2, s2, f2), (n3, s3, f3), (n4, s4, f4)]
          (''UNKNOWN'', 0) =
        (if a < i
         then (if i < c then (if c < v then (n4, v) else (n3, c))
               else (if i < v then (n4, v) else (n2, i)))
         else if 0 < a
         then (if a < c then (if c < v then (n4, v) else (n3, c))
               else (if a < v then (n4, v) else (n1, a)))
         else (if 0 < c then (if c < v then (n4, v) else (n3, c))
               else (if 0 < v then (n4, v) else (''UNKNOWN'', 0))))"
    using nn unfolding classify_step_def Let_def fold_simps prod.case defs [symmetric]
    by auto
  then show ?thesis
    by (simp only: highest_confidence_four [OF nn] defs [symmetric])
qed

lemma classify_single_event_highest:
  "classify_single_event cfg ev ctx = highest_confidence (score_table cfg ev ctx)"
  unfolding classify_single_event_def score_table_def stage_rules_def
  by (simp only: list.map prod.case
        fold_four awareness_conditions_range interest_conditions_range
        consideration_conditions_range conversion_conditions_range)

text \<open>
  C4. Whatever the event and its context, the classifier returns the stage with the
  highest confidence among the four rules and that confidence; when all four confidences
  are 0 it returns \<open>UNKNOWN\<close> with confidence 0; and of several stages with the same,
  highest confidence it returns the one evaluated first, the order of evaluation being
  \<open>AWARENESS\<close>, \<open>INTEREST\<close>, \<open>CONSIDERATION\<close>, \<open>CONVERSION\<close>.
\<close>

theorem classify_single_event_highest_confidence:
  "classify_single_event cfg event_row user_context =
     highest_confidence (score_table cfg event_row user_context)
   \<and> map fst (score_table cfg event_row user_context) =
       [''AWARENESS'', ''INTEREST'', ''CONSIDERATION'', ''CONVERSION'']"
  by (simp add: classify_single_event_highest) (simp add: score_table_def stage_rules_def)

section \<open>The classification of a user journey\<close>

lemma truncate_fields [simp]:
  "userPseudoId (event.truncate r) = userPseudoId r"
  "sessionId (event.truncate r) = sessionId r"
  "eventName (event.truncate r) = eventName r"
  "pagePath (event.truncate r) = pagePath r"
  "sessionSource (event.truncate r) = sessionSource r"
  "sessionMedium (event.truncate r) = sessionMedium r"
  "deviceCategory (event.truncate r) = deviceCategory r"
  "country (event.truncate r) = country r"
  "eventTimestamp (event.truncate r) = eventTimestamp r"
  "engagementTimeMsec (event.truncate r) = engagementTimeMsec r"
  by (simp_all add: event.truncate_def)

lemma truncate_stage_update [simp]:
  "event.truncate (r\<lparr>funnel_stage := s, stage_confidence := c\<rparr>) = event.truncate r"
  by (simp add: event.truncate_def)

lemma base_set_stage [simp]: "base (set_stage idx res ue) = base ue"
  by (simp add: base_def set_stage_def case_prod_unfold comp_def)

lemma awareness_conditions_base:
  "awareness_conditions ev ctx sc =
     awareness_conditions (fst ev, event.truncate (snd ev)) (base ctx) sc"
  by (cases ctx) (simp_all add: awareness_conditions_def base_def split del: if_split cong: if_cong)

lemma filter_base:
  "filter P (base ctx) = base (filter (\<lambda>row. P (fst row, event.truncate (snd row))) ctx)"
  by (simp add: base_def filter_map comp_def)

lemma list_ex_base:
  "list_ex P (base ctx) = list_ex (\<lambda>row. P (fst row, event.truncate (snd row))) ctx"
  by (simp add: base_def list_ex_iff)

lemma map_base: "map f (base ctx) = map (\<lambda>row. f (fst row, event.truncate (snd row))) ctx"
  by (simp add: base_def comp_def)

lemma length_base [simp]: "length (base ctx) = length ctx"
  by (simp add: base_def)

lemma interest_conditions_base:
  "interest_conditions cfg ev ctx sc =
     interest_conditions cfg (fst ev, event.truncate (snd ev)) (base ctx) sc"
  by (simp add: interest_conditions_def filter_base list_ex_base split del: if_split cong: if_cong)

lemma consideration_conditions_base:
  "consideration_conditions ev ctx sc =
     consideration_conditions (fst ev, event.truncate (snd ev)) (base ctx) sc"
  by (simp add: consideration_conditions_def filter_base list_ex_base map_base
        split del: if_split cong: if_cong)

lemma conversion_conditions_base:
  "conversion_conditions ev ctx sc =
     conversion_conditions (fst ev, event.truncate (snd ev)) (base ctx) sc"
  by (simp add: conversion_conditions_def split del: if_split cong: if_cong)

lemma classify_single_event_base:
  "classify_single_event cfg ev ctx =
     classify_single_event cfg (fst ev, event.truncate (snd ev)) (base ctx)"
  unfolding classify_single_event_def stage_rules_def classify_step_def fold_simps prod.case
  by (simp only: awareness_conditions_base [of ev ctx] interest_conditions_base [of cfg ev ctx]
        consideration_conditions_base [of ev ctx] conversion_conditions_base [of ev ctx])

lemma classify_single_event_set_stage:
  "classify_single_event cfg row (set_stage idx res ue) = classify_single_event cfg row ue"
  by (subst classify_single_event_base, subst (2) classify_single_event_base) simp

lemma fold_set_stage:
  assumes "distinct (map fst xs)"
  shows "fold (\<lambda>row ue. set_stage (fst row) (classify_single_event cfg row ue) ue) xs ue =
         map (\<lambda>r. case find (\<lambda>x. fst x = fst r) xs of
                     None \<Rightarrow> r
                   | Some x \<Rightarrow>
                       (fst r, (snd r)\<lparr>funnel_stage := fst (classify_single_event cfg x ue),
                                        stage_confidence := snd (classify_single_event cfg x ue)\<rparr>))
           ue"
  using assms
proof (induction xs arbitrary: ue)
  case Nil
  then show ?case by simp
next
  case (Cons x xs)
  let ?res = "classify_single_event cfg x ue"
  from Cons.prems have d: "distinct (map fst xs)" and nx: "fst x \<notin> fst ` set xs" by simp_all
  have none: "find (\<lambda>y. fst y = fst x) xs = None"
    using nx by (induction xs) auto
  show ?case
    apply (simp add: Cons.IH [OF d])
    apply (simp add: classify_single_event_set_stage cong: option.case_cong)
    apply (simp add: set_stage_def case_prod_unfold none split: option.split)
    done
qed

lemma find_own_label:
  "distinct (map fst xs) \<Longrightarrow> r \<in> set xs \<Longrightarrow> find (\<lambda>x. fst x = fst r) xs = Some r"
  by (induction xs) (auto simp: rev_image_eqI)

lemma classify_user_journey_map:
  assumes "distinct (map fst user_events)"
  shows "classify_user_journey cfg user_events =
           (let sorted_events = sort_key (\<lambda>row. eventTimestamp (snd row)) user_events
            in map (annotate cfg sorted_events) sorted_events)"
proof -
  let ?s = "sort_key (\<lambda>row. eventTimestamp (snd row)) user_events"
  have d: "distinct (map fst ?s)"
    using assms by (metis distinct_map distinct_sort set_sort)
  show ?thesis
    unfolding classify_user_journey_def Let_def fold_set_stage [OF d]
    by (rule map_cong) (simp_all add: find_own_label [OF d] annotate_def)
qed

section \<open>Evaluation on the example frames\<close>

lemma float_sums:
  "fadd 0 (float64 (4/5)) = 3602879701896397 / 4503599627370496"
  "fadd (3602879701896397 / 4503599627370496) (float64 (3/10)) = 2476979795053773 / 2251799813685248"
  "fadd (2476979795053773 / 2251799813685248) (float64 (2/5)) = 3 / 2"
  "fadd (3 / 2) (float64 (3/10)) = 8106479329266893 / 4503599627370496"
  "fadd 0 (float64 (3/10)) = 5404319552844595 / 18014398509481984"
  "fadd 0 (float64 (1/2)) = 1 / 2"
  "fadd (1 / 2) (float64 (1/5)) = 3152519739159347 / 4503599627370496"
  "fadd (5404319552844595 / 18014398509481984) (float64 (1/5)) = 1 / 2"
  "fadd 0 (float64 (1/5)) = 3602879701896397 / 18014398509481984"
  "fadd (5404319552844595 / 18014398509481984) (float64 (2/5)) = 3152519739159347 / 4503599627370496"
  "fadd (3152519739159347 / 4503599627370496) (float64 (3/10)) = 1"
  "fadd (5404319552844595 / 18014398509481984) (float64 (3/10)) = 5404319552844595 / 9007199254740992"
  "fadd 0 (float64 (7/10)) = 3152519739159347 / 4503599627370496"
  "fadd (3152519739159347 / 4503599627370496) (float64 (1/2)) = 5404319552844595 / 4503599627370496"
  by code_simp+

lemmas classify_eval =
  classify_single_event_def stage_rules_def classify_step_def
  awareness_conditions_def interest_conditions_def consideration_conditions_def
  conversion_conditions_def Let_def mk_event_def float_sums

lemma conversion_event_name_neq [simp]:
  "conversion_event_name \<noteq> ''session_start''" "conversion_event_name \<noteq> ''first_visit''"
  "conversion_event_name \<noteq> ''user_engagement''" "conversion_event_name \<noteq> ''visit_blog''"
  "conversion_event_name \<noteq> ''page_view''"
  "''session_start'' \<noteq> conversion_event_name" "''first_visit'' \<noteq> conversion_event_name"
  "''user_engagement'' \<noteq> conversion_event_name" "''visit_blog'' \<noteq> conversion_event_name"
  "''page_view'' \<noteq> conversion_event_name"
  by (simp_all add: conversion_event_name_def)

lemma e_a1:
  "classify_single_event default_config (1, mk_event ''A'' ''page_view'' ''/posts/5'' ''google'' 1)
     [(0, mk_event ''A'' ''session_start'' ''/'' ''google'' 0),
      (1, mk_event ''A'' ''page_view'' ''/posts/5'' ''google'' 1),
      (2, mk_event ''A'' conversion_event_name ''/provider-join'' ''google'' 2)] = (''INTEREST'', 3152519739159347 / 4503599627370496)"
  by (simp add: classify_eval)

lemma e_a0:
  "classify_single_event default_config (0, mk_event ''A'' ''session_start'' ''/'' ''google'' 0)
     [(0, mk_event ''A'' ''session_start'' ''/'' ''google'' 0),
      (1, mk_event ''A'' ''page_view'' ''/posts/5'' ''google'' 1),
      (2, mk_event ''A'' conversion_event_name ''/provider-join'' ''google'' 2)] = (''AWARENESS'', 1)"
  by (simp add: classify_eval)

lemma e_a2:
  "classify_single_event default_config (2, mk_event ''A'' conversion_event_name ''/provider-join'' ''google'' 2)
     [(0, mk_event ''A'' ''session_start'' ''/'' ''google'' 0),
      (1, mk_event ''A'' ''page_view'' ''/posts/5'' ''google'' 1),
      (2, mk_event ''A'' conversion_event_name ''/provider-join'' ''google'' 2)] = (''CONVERSION'', 1)"
  by (simp add: classify_eval)

lemma e_b0:
  "classify_single_event default_config (3, mk_event ''B'' ''session_start'' ''/'' ''google'' 0)
     [(3, mk_event ''B'' ''session_start'' ''/'' ''google'' 0)] = (''AWARENESS'', 1)"
  by (simp add: classify_eval)


lemma e_u1:
  "classify_single_event default_config
     (0, mk_event ''U1'' ''user_engagement'' ''/posts/1'' ''(direct)'' 0)
     [(0, mk_event ''U1'' ''user_engagement'' ''/posts/1'' ''(direct)'' 0)] = (''INTEREST'', 1)"
  by (simp add: classify_eval)

lemma e_u2:
  "classify_single_event default_config
     (1, mk_event ''U2'' ''user_engagement'' ''/posts/2'' ''(direct)'' 0)
     [(1, mk_event ''U2'' ''user_engagement'' ''/posts/2'' ''(direct)'' 0)] = (''INTEREST'', 1)"
  by (simp add: classify_eval)

lemma e_u3:
  "classify_single_event default_config (2, mk_event ''U3'' ''session_start'' ''/'' ''google'' 0)
     [(2, mk_event ''U3'' ''session_start'' ''/'' ''google'' 0)] = (''AWARENESS'', 1)"
  by (simp add: classify_eval)

section \<open>What every classification satisfies\<close>

lemma float64_pos: "0 < x \<Longrightarrow> 0 < float64 x"
proof -
  assume x: "0 < x"
  have "(0::rat) < 2 powi (floor_log2 x)" by simp
  with float64_binade [OF x] show ?thesis by linarith
qed

lemma set_stage_invariant:
  assumes "\<forall>r\<in>set ue. P (stage_of r)" and "P res"
  shows "\<forall>r\<in>set (set_stage idx res ue). P (stage_of r)"
  using assms by (auto simp: set_stage_def stage_of_def)

lemma fold_set_stage_invariant:
  assumes "\<forall>r\<in>set ue. P (stage_of r)"
    and "\<And>(row :: nat \<times> classified_event) ctx. P (classify_single_event cfg row ctx)"
  shows "\<forall>r\<in>set (fold (\<lambda>row ue. set_stage (fst row) (classify_single_event cfg row ue) ue) xs ue).
           P (stage_of r)"
  using assms(1)
proof (induction xs arbitrary: ue)
  case Nil
  then show ?case by simp
next
  case (Cons x xs)
  have "\<forall>r\<in>set (set_stage (fst x) (classify_single_event cfg x ue) ue). P (stage_of r)"
    by (rule set_stage_invariant [OF Cons.prems]) (rule assms(2))
  then show ?case
    unfolding fold_simps by (rule Cons.IH)
qed

lemma snd_set_reindex: "snd ` set (reindex xs) = snd ` set xs"
proof -
  have "set (map snd (reindex xs)) = set (map snd xs)"
    by (simp add: reindex_def)
  then show ?thesis by simp
qed

lemma classify_user_events_invariant:
  assumes "P (''UNKNOWN'', 0)"
    and "\<And>(row :: nat \<times> classified_event) ctx. P (classify_single_event cfg row ctx)"
  shows "\<forall>r\<in>set (classify_user_events cfg df). P (stage_of r)"
proof (cases "df = []")
  case True
  then show ?thesis by (simp add: classify_user_events_def)
next
  case False
  let ?df = "add_columns cfg df"
  let ?out = "concat (map (classify_user_journey cfg) (groupby_user ?df))"
  have init: "\<forall>r\<in>set ?df. P (stage_of r)"
    using assms(1)
    by (auto simp: add_columns_def event.extend_def classified_event.fields_def stage_of_def)
  have journey: "\<forall>r\<in>set (classify_user_journey cfg g). P (stage_of r)"
    if "set g \<subseteq> set ?df" for g
  proof -
    have "\<forall>r\<in>set (sort_key (\<lambda>row. eventTimestamp (snd row)) g). P (stage_of r)"
      using that init by auto
    then show ?thesis
      unfolding classify_user_journey_def Let_def
      using assms(2) by (rule fold_set_stage_invariant)
  qed
  have groups: "\<forall>g\<in>set (groupby_user ?df). set g \<subseteq> set ?df"
    by (auto simp: groupby_user_def)
  have "\<forall>r\<in>set ?out. P (stage_of r)"
    using journey groups by auto
  then have "\<forall>c\<in>snd ` set ?out. P (funnel_stage c, stage_confidence c)"
    by (auto simp: stage_of_def)
  then have "\<forall>c\<in>snd ` set (reindex ?out). P (funnel_stage c, stage_confidence c)"
    by (simp only: snd_set_reindex)
  then have "\<forall>r\<in>set (reindex ?out). P (stage_of r)"
    by (auto simp: stage_of_def)
  then show ?thesis
    using False by (simp add: classify_user_events_def Let_def)
qed

lemma fadd_ge_right:
  assumes "0 \<le> c" "0 < w"
  shows "0 < fadd c w"
  unfolding fadd_def by (rule float64_pos) (use assms in simp)

lemma bump_pos:
  "0 < c \<Longrightarrow> 0 \<le> w \<Longrightarrow> 0 < (if b then fadd c (float64 w) else c)"
  by (simp add: fadd_def float64_pos float64_nonneg add_pos_nonneg)

lemma awareness_positive:
  "sessionSource (snd ev) \<noteq> ''(direct)'' \<Longrightarrow> 0 < awareness_conditions ev ctx sc"
  by (simp add: awareness_conditions_def Let_def fadd_ge_right float64_pos bump_nonneg bump_pos
        split: list.split split del: if_split)

lemma consideration_positive:
  "sessionSource (snd ev) = ''(direct)'' \<Longrightarrow> 0 < consideration_conditions ev ctx sc"
  by (simp add: consideration_conditions_def Let_def fadd_ge_right float64_pos bump_nonneg
        split del: if_split)

lemma awareness_conditions_config:
  "awareness_conditions ev ctx sc = awareness_conditions ev ctx sc'"
  by (simp only: awareness_conditions_def)

lemma interest_conditions_config:
  "interest_conditions cfg ev ctx sc = interest_conditions cfg ev ctx sc'"
  by (simp only: interest_conditions_def)

lemma consideration_conditions_config:
  "consideration_conditions ev ctx sc = consideration_conditions ev ctx sc'"
  by (simp only: consideration_conditions_def)

lemma conversion_conditions_config:
  "conversion_conditions ev ctx sc = conversion_conditions ev ctx sc'"
  by (simp only: conversion_conditions_def)

lemma score_table_eq:
  "score_table cfg ev ctx =
     [(''AWARENESS'', awareness_conditions ev ctx sc1),
      (''INTEREST'', interest_conditions cfg ev ctx sc2),
      (''CONSIDERATION'', consideration_conditions ev ctx sc3),
      (''CONVERSION'', conversion_conditions ev ctx sc4)]"
  unfolding score_table_def stage_rules_def list.map prod.case
  by (simp only: awareness_conditions_def interest_conditions_def
        consideration_conditions_def conversion_conditions_def)

lemma highest_confidence_in:
  "highest_confidence scores \<in> insert (''UNKNOWN'', 0) (set scores)"
proof (cases "list_all (\<lambda>entry. snd entry = 0) scores")
  case True
  then show ?thesis by (simp add: highest_confidence_def)
next
  case False
  then have ne: "scores \<noteq> []" by auto
  define m where "m = Max (set (map snd scores))"
  have "m \<in> set (map snd scores)"
    unfolding m_def using ne by (intro Max_in) simp_all
  then have "filter (\<lambda>entry. snd entry = m) scores \<noteq> []"
    by (auto simp: filter_empty_conv)
  then have h: "hd (filter (\<lambda>entry. snd entry = m) scores) \<in> set (filter (\<lambda>entry. snd entry = m) scores)"
    by (rule hd_in_set)
  then have "snd (hd (filter (\<lambda>entry. snd entry = m) scores)) = m"
    and "hd (filter (\<lambda>entry. snd entry = m) scores) \<in> set scores"
    by auto
  then have "(fst (hd (filter (\<lambda>entry. snd entry = m) scores)), m) \<in> set scores"
    by (metis prod.collapse)
  then show ?thesis
    using False by (simp add: highest_confidence_def Let_def m_def)
qed

lemma classify_single_event_range:
  "fst (classify_single_event cfg ev ctx) \<in>
     set [''AWARENESS'', ''INTEREST'', ''CONSIDERATION'', ''CONVERSION'', ''UNKNOWN'']
   \<and> 0 \<le> snd (classify_single_event cfg ev ctx) \<and> snd (classify_single_event cfg ev ctx) \<le> 1"
proof -
  have "classify_single_event cfg ev ctx \<in>
          insert (''UNKNOWN'', 0) (set (score_table cfg ev ctx))"
    unfolding classify_single_event_highest by (rule highest_confidence_in)
  then show ?thesis
    unfolding score_table_eq [of cfg ev ctx undefined undefined undefined undefined]
    using awareness_conditions_range [of ev ctx undefined]
      interest_conditions_range [of cfg ev ctx undefined]
      consideration_conditions_range [of ev ctx undefined]
      conversion_conditions_range [of ev ctx undefined]
    by auto
qed

lemma classify_single_event_known:
  "fst (classify_single_event cfg ev ctx) \<noteq> ''UNKNOWN'' \<and> 0 < snd (classify_single_event cfg ev ctx)"
proof -
  define a i c v where "a = awareness_conditions ev ctx undefined"
    and "i = interest_conditions cfg ev ctx undefined"
    and "c = consideration_conditions ev ctx undefined"
    and "v = conversion_conditions ev ctx undefined"
  note defs = a_def i_def c_def v_def
  have nn: "0 \<le> a" "0 \<le> i" "0 \<le> c" "0 \<le> v"
    by (simp_all add: defs awareness_conditions_range interest_conditions_range
          consideration_conditions_range conversion_conditions_range)
  have pos: "0 < a \<or> 0 < c"
    unfolding defs using awareness_positive consideration_positive by blast
  have "classify_single_event cfg ev ctx =
          highest_confidence [(''AWARENESS'', a), (''INTEREST'', i), (''CONSIDERATION'', c), (''CONVERSION'', v)]"
    unfolding classify_single_event_highest defs by (rule arg_cong [OF score_table_eq])
  then show ?thesis
    using nn pos by (auto simp: highest_confidence_four)
qed



section \<open>The classified frame\<close>

lemma set_stage_proj:
  assumes "\<And>r s c. f (r\<lparr>funnel_stage := s, stage_confidence := c\<rparr>) = f r"
  shows "map (\<lambda>r. f (snd r)) (set_stage idx res ue) = map (\<lambda>r. f (snd r)) ue"
  by (simp add: set_stage_def case_prod_unfold assms)

lemma fold_set_stage_proj:
  assumes "\<And>r s c. f (r\<lparr>funnel_stage := s, stage_confidence := c\<rparr>) = f r"
  shows "map (\<lambda>r. f (snd r))
           (fold (\<lambda>row ue. set_stage (fst row) (classify_single_event cfg row ue) ue) xs ue)
         = map (\<lambda>r. f (snd r)) ue"
  by (induction xs arbitrary: ue) (simp_all add: set_stage_proj [of f, OF assms])

lemma classify_user_journey_proj:
  assumes "\<And>r s c. f (r\<lparr>funnel_stage := s, stage_confidence := c\<rparr>) = f r"
  shows "map (\<lambda>r. f (snd r)) (classify_user_journey cfg g)
         = map (\<lambda>r. f (snd r)) (sort_key (\<lambda>row. eventTimestamp (snd row)) g)"
  unfolding classify_user_journey_def Let_def by (rule fold_set_stage_proj [of f, OF assms])

lemma classify_user_journey_labels:
  "map fst (classify_user_journey cfg g) = map fst (sort_key (\<lambda>row. eventTimestamp (snd row)) g)"
proof -
  have "map fst (fold (\<lambda>row ue. set_stage (fst row) (classify_single_event cfg row ue) ue) xs ue)
          = map fst ue" for xs ue
    by (induction xs arbitrary: ue) (simp_all add: set_stage_def case_prod_unfold)
  then show ?thesis by (simp add: classify_user_journey_def Let_def)
qed

lemma mset_concat_groups:
  assumes "distinct ks"
  shows "mset (concat (map (\<lambda>k. filter (\<lambda>x. key x = k) xs) ks))
         = filter_mset (\<lambda>x. key x \<in> set ks) (mset xs)"
  using assms
proof (induction ks)
  case Nil
  then show ?case by simp
next
  case (Cons k ks)
  then have k: "k \<notin> set ks" and d: "distinct ks" by simp_all
  have "filter_mset (\<lambda>x. key x \<in> set (k # ks)) (mset xs)
          = filter_mset (\<lambda>x. key x = k) (mset xs) + filter_mset (\<lambda>x. key x \<in> set ks) (mset xs)"
    using k by (induction xs) auto
  then show ?case by (simp add: Cons.IH [OF d])
qed

lemma mset_groupby_user: "mset (concat (groupby_user df)) = mset df"
proof -
  have "mset (concat (groupby_user df))
          = filter_mset (\<lambda>row. userPseudoId (snd row) \<in> set (sort (remdups (map (\<lambda>row. userPseudoId (snd row)) df))))
              (mset df)"
    unfolding groupby_user_def by (rule mset_concat_groups) simp
  also have "\<dots> = mset df"
    by (simp add: filter_mset_eq_conv)
  finally show ?thesis .
qed

lemma sorted_concat_groups:
  fixes g :: "'k::linorder \<Rightarrow> ('k \<times> 't::linorder) list"
  assumes "sorted ks" "distinct ks"
    and "\<And>k. sorted (g k) \<and> (\<forall>x\<in>set (g k). fst x = k)"
  shows "sorted (concat (map g ks))"
  using assms(1,2)
proof (induction ks)
  case Nil
  then show ?case by simp
next
  case (Cons k ks)
  then have s: "sorted ks" and d: "distinct ks" and lt: "\<forall>k'\<in>set ks. k < k'"
    by (auto simp: order.strict_iff_order)
  have "x \<le> y" if "x \<in> set (g k)" "y \<in> set (concat (map g ks))" for x y
  proof -
    from that(2) obtain k' where "k' \<in> set ks" "y \<in> set (g k')" by auto
    then have "fst x < fst y" using that(1) assms(3) lt by auto
    then show ?thesis by (simp add: less_eq_prod_def)
  qed
  then show ?case
    using assms(3) Cons.IH [OF s d] by (auto simp: sorted_append)
qed

lemma sorted_same_user:
  assumes "sorted (map snd xs)" "\<forall>x\<in>set xs. fst x = k"
  shows "sorted (xs :: ('k::linorder \<times> 't::linorder) list)"
  using assms by (induction xs) (auto simp: less_eq_prod_def)


lemma truncate_extend [simp]: "event.truncate (event.extend e m) = e"
  by (simp add: event.truncate_def event.extend_def)

lemma map_snd_reindex [simp]: "map snd (reindex xs) = map snd xs"
  by (simp add: reindex_def)

lemma map_fst_reindex [simp]: "map fst (reindex xs) = [0..<length xs]"
  by (simp add: reindex_def)

lemma length_reindex [simp]: "length (reindex xs) = length xs"
  by (simp add: reindex_def)

lemma map_proj_reindex: "map (\<lambda>r. f (snd r)) (reindex xs) = map (\<lambda>r. f (snd r)) xs"
proof -
  have "map f (map snd (reindex xs)) = map f (map snd xs)" by simp
  then show ?thesis by (simp only: map_map comp_def)
qed

lemma mset_concat_sorted_groups:
  "mset (concat (map (\<lambda>g. map F (sort_key k g)) gs)) = mset (map F (concat gs))"
  by (induction gs) simp_all

lemma classify_user_events_proj:
  assumes "\<And>r s c. f (r\<lparr>funnel_stage := s, stage_confidence := c\<rparr>) = f r"
  shows "map (\<lambda>r. f (snd r)) (classify_user_events cfg df) =
         concat (map (\<lambda>g. map (\<lambda>r. f (snd r)) (sort_key (\<lambda>row. eventTimestamp (snd row)) g))
                   (groupby_user (add_columns cfg df)))"
proof (cases "df = []")
  case True
  then show ?thesis
    by (simp add: classify_user_events_def add_columns_def groupby_user_def)
next
  case False
  then show ?thesis
    by (simp add: classify_user_events_def Let_def map_proj_reindex map_concat comp_def
          classify_user_journey_proj [of f, OF assms])
qed

lemma classify_user_events_mset:
  assumes "\<And>r s c. f (r\<lparr>funnel_stage := s, stage_confidence := c\<rparr>) = f r"
  shows "mset (map (\<lambda>r. f (snd r)) (classify_user_events cfg df)) =
         mset (map (\<lambda>r. f (snd r)) (add_columns cfg df))"
proof -
  have "mset (map (\<lambda>r. f (snd r)) (classify_user_events cfg df)) =
        mset (map (\<lambda>r. f (snd r)) (concat (groupby_user (add_columns cfg df))))"
    unfolding classify_user_events_proj [of f, OF assms] by (rule mset_concat_sorted_groups)
  also have "\<dots> = image_mset (\<lambda>r. f (snd r)) (mset (concat (groupby_user (add_columns cfg df))))"
    by simp
  also have "\<dots> = mset (map (\<lambda>r. f (snd r)) (add_columns cfg df))"
    by (simp add: mset_groupby_user)
  finally show ?thesis .
qed

lemma classify_user_events_events:
  "mset (map (\<lambda>r. event.truncate (snd r)) (classify_user_events cfg df)) = mset (map snd df)"
proof -
  have "map (\<lambda>r. event.truncate (snd r)) (add_columns cfg df) = map snd df"
    by (simp add: add_columns_def case_prod_unfold)
  then show ?thesis
    using classify_user_events_mset [of event.truncate cfg df] by simp
qed

lemma classify_user_events_length: "length (classify_user_events cfg df) = length df"
  using classify_user_events_events [of cfg df]
  by (metis length_map size_mset)

lemma classify_user_events_labels:
  "map fst (classify_user_events cfg df) = [0..<length df]"
proof (cases "df = []")
  case True
  then show ?thesis by (simp add: classify_user_events_def)
next
  case False
  have "map fst (classify_user_events cfg df) = [0..<length (classify_user_events cfg df)]"
    using False by (simp add: classify_user_events_def Let_def)
  then show ?thesis by (simp add: classify_user_events_length)
qed

lemma classify_user_events_page_category:
  "list_all (\<lambda>r. page_category (snd r) = get_page_category cfg (pagePath (snd r)))
     (classify_user_events cfg df)"
proof -
  let ?f = "\<lambda>r :: classified_event. (page_category r, pagePath r)"
  have "set (map (\<lambda>r. ?f (snd r)) (classify_user_events cfg df)) =
        set (map (\<lambda>r. ?f (snd r)) (add_columns cfg df))"
  proof -
    have "mset (map (\<lambda>r. ?f (snd r)) (classify_user_events cfg df)) =
          mset (map (\<lambda>r. ?f (snd r)) (add_columns cfg df))"
      by (rule classify_user_events_mset) simp
    then show ?thesis by (rule mset_eq_setD)
  qed
  moreover have "\<forall>p\<in>set (map (\<lambda>r. ?f (snd r)) (add_columns cfg df)). fst p = get_page_category cfg (snd p)"
    by (auto simp: add_columns_def event.extend_def classified_event.fields_def)
  ultimately have "\<forall>p\<in>set (map (\<lambda>r. ?f (snd r)) (classify_user_events cfg df)). fst p = get_page_category cfg (snd p)"
    by simp
  then show ?thesis by (auto simp: list_all_iff)
qed

lemma classify_user_events_sorted:
  "sorted (map (\<lambda>r. (userPseudoId (snd r), eventTimestamp (snd r))) (classify_user_events cfg df))"
proof -
  let ?key = "\<lambda>r :: classified_event. (userPseudoId r, eventTimestamp r)"
  let ?df = "add_columns cfg df"
  let ?ks = "sort (remdups (map (\<lambda>row. userPseudoId (snd row)) ?df))"
  let ?G = "\<lambda>k. map (\<lambda>r. ?key (snd r))
              (sort_key (\<lambda>row. eventTimestamp (snd row)) (filter (\<lambda>row. userPseudoId (snd row) = k) ?df))"
  have eq: "map (\<lambda>r. ?key (snd r)) (classify_user_events cfg df) = concat (map ?G ?ks)"
    unfolding classify_user_events_proj [of ?key, simplified] groupby_user_def
    by (simp add: comp_def)
  have G: "sorted (?G k) \<and> (\<forall>x\<in>set (?G k). fst x = k)" for k
  proof -
    have "map snd (?G k) = map (\<lambda>row. eventTimestamp (snd row))
            (sort_key (\<lambda>row. eventTimestamp (snd row)) (filter (\<lambda>row. userPseudoId (snd row) = k) ?df))"
      by (simp add: comp_def)
    then have "sorted (map snd (?G k))"
      by (simp only: sorted_sort_key)
    moreover have "\<forall>x\<in>set (?G k). fst x = k" by auto
    ultimately show ?thesis using sorted_same_user [of "?G k" k] by blast
  qed
  have "sorted (concat (map ?G ?ks))"
    by (rule sorted_concat_groups) (simp_all add: G)
  then show ?thesis by (simp only: eq)
qed

section \<open>The classified example frames\<close>

lemma string_less_simps:
  "([]::string) < y # ys" "\<not> xs < ([]::string)"
  "(x # xs) < (y # ys) \<longleftrightarrow> x < y \<or> x = y \<and> xs < ys"
  "([]::string) \<le> ys" "\<not> x # xs \<le> ([]::string)"
  "(x # xs) \<le> (y # ys) \<longleftrightarrow> x < y \<or> x = y \<and> xs \<le> ys"
  by (simp_all add: less_list_code less_eq_list_code)

lemma classified_fields [simp]:
  "userPseudoId (classified e s c p) = userPseudoId e"
  "eventTimestamp (classified e s c p) = eventTimestamp e"
  "funnel_stage (classified e s c p) = s"
  "stage_confidence (classified e s c p) = c"
  "page_category (classified e s c p) = p"
  "event.truncate (classified e s c p) = e"
  "(classified e s c p)\<lparr>funnel_stage := s', stage_confidence := c'\<rparr> = classified e s' c' p"
  by (simp_all add: classified_def event.extend_def classified_event.fields_def event.truncate_def)

lemma mk_event_fields [simp]:
  "userPseudoId (mk_event u n p s t) = u"
  "eventName (mk_event u n p s t) = n"
  "pagePath (mk_event u n p s t) = p"
  "sessionSource (mk_event u n p s t) = s"
  "eventTimestamp (mk_event u n p s t) = t"
  "engagementTimeMsec (mk_event u n p s t) = None"
  by (simp_all add: mk_event_def)

lemma add_columns_simps:
  "add_columns cfg [] = []"
  "add_columns cfg ((i, e) # df) =
     (i, classified e ''UNKNOWN'' 0 (get_page_category cfg (pagePath e))) # add_columns cfg df"
  by (simp_all add: add_columns_def classified_def)

lemma page_categories_scenario:
  "get_page_category default_config ''/'' = ''homepage''"
  "get_page_category default_config ''/posts/5'' = ''content''"
  "get_page_category default_config ''/posts/1'' = ''content''"
  "get_page_category default_config ''/posts/2'' = ''content''"
  "get_page_category default_config ''/provider-join'' = ''authentication''"
  by (simp_all add: get_page_category_def default_config_def endswith_def)

lemma classify_classified:
  "classify_single_event cfg (i, classified e s c p) ctx = classify_single_event cfg (i, e) (base ctx)"
  by (subst classify_single_event_base) simp

lemma base_simps:
  "base [] = []"
  "base ((i, classified e s c p) # df) = (i, e) # base df"
  by (simp_all add: base_def)

lemmas frame_eval =
  classify_user_events_def add_columns_simps groupby_user_def string_less_simps
  classify_user_journey_map annotate_def classify_classified base_simps reindex_def Let_def

lemma classify_scenario:
  "classify_user_events default_config scenario =
   [(0, classified (mk_event ''A'' ''session_start'' ''/'' ''google'' 0)
          ''AWARENESS'' 1 ''homepage''),
    (1, classified (mk_event ''A'' ''page_view'' ''/posts/5'' ''google'' 1)
          ''INTEREST'' (3152519739159347 / 4503599627370496) ''content''),
    (2, classified (mk_event ''A'' conversion_event_name ''/provider-join'' ''google'' 2)
          ''CONVERSION'' 1 ''authentication''),
    (3, classified (mk_event ''B'' ''session_start'' ''/'' ''google'' 0)
          ''AWARENESS'' 1 ''homepage'')]"
  by (simp add: scenario_def frame_eval page_categories_scenario e_a0 e_a1 e_a2 e_b0
        del: One_nat_def)


lemma classify_interest_heavy:
  "classify_user_events default_config interest_heavy =
   [(0, classified (mk_event ''U1'' ''user_engagement'' ''/posts/1'' ''(direct)'' 0)
          ''INTEREST'' 1 ''content''),
    (1, classified (mk_event ''U2'' ''user_engagement'' ''/posts/2'' ''(direct)'' 0)
          ''INTEREST'' 1 ''content''),
    (2, classified (mk_event ''U3'' ''session_start'' ''/'' ''google'' 0)
          ''AWARENESS'' 1 ''homepage'')]"
  by (simp add: interest_heavy_def frame_eval page_categories_scenario e_u1 e_u2 e_u3
        del: One_nat_def)

section \<open>Claims about the stage classifier\<close>




text \<open>
  C5. Every row of the classifier's output carries one of the five stage names and a
  confidence between 0 and 1, and none of the four rules gives more than 1, whatever
  signals fire.
\<close>

theorem classified_events_in_range:
  "(\<forall>r\<in>set (classify_user_events cfg events_df).
      funnel_stage (snd r) \<in>
        set [''AWARENESS'', ''INTEREST'', ''CONSIDERATION'', ''CONVERSION'', ''UNKNOWN'']
      \<and> 0 \<le> stage_confidence (snd r) \<and> stage_confidence (snd r) \<le> 1)
   \<and> awareness_conditions ev ctx sc \<le> 1
   \<and> interest_conditions cfg ev ctx sc \<le> 1
   \<and> consideration_conditions ev ctx sc \<le> 1
   \<and> conversion_conditions ev ctx sc \<le> 1"
proof -
  let ?P = "\<lambda>res :: string \<times> rat.
      fst res \<in> set [''AWARENESS'', ''INTEREST'', ''CONSIDERATION'', ''CONVERSION'', ''UNKNOWN'']
      \<and> 0 \<le> snd res \<and> snd res \<le> 1"
  have "\<forall>r\<in>set (classify_user_events cfg events_df). ?P (stage_of r)"
    by (rule classify_user_events_invariant) (simp, rule classify_single_event_range)
  then show ?thesis
    by (simp add: stage_of_def awareness_conditions_range interest_conditions_range
          consideration_conditions_range conversion_conditions_range)
qed

theorem classified_events_in_range_witness:
  "length (classify_user_events default_config scenario) = 4
   \<and> funnel_stage (snd (classify_user_events default_config scenario ! 1)) \<in>
       set [''AWARENESS'', ''INTEREST'', ''CONSIDERATION'', ''CONVERSION'', ''UNKNOWN'']
   \<and> 0 \<le> stage_confidence (snd (classify_user_events default_config scenario ! 1))
   \<and> stage_confidence (snd (classify_user_events default_config scenario ! 1)) \<le> 1"
proof -
  have len: "length (classify_user_events default_config scenario) = 4"
    by (simp add: classify_user_events_length scenario_def)
  then have "classify_user_events default_config scenario ! 1
               \<in> set (classify_user_events default_config scenario)"
    by simp
  with classified_events_in_range [of default_config scenario] len show ?thesis
    by blast
qed

text \<open>
  C8. The output of the classifier holds the events of the input, each once and with
  every field as it was; what it adds is the stage, the confidence and the page category
  of the event's path; its rows are in ascending order of user and, for one user, of
  timestamp, and are numbered from 0.
\<close>

theorem classify_user_events_frame:
  "mset (map (\<lambda>r. event.truncate (snd r)) (classify_user_events cfg events_df))
     = mset (map snd events_df)
   \<and> length (classify_user_events cfg events_df) = length events_df
   \<and> list_all (\<lambda>r. page_category (snd r) = get_page_category cfg (pagePath (snd r)))
       (classify_user_events cfg events_df)
   \<and> sorted (map (\<lambda>r. (userPseudoId (snd r), eventTimestamp (snd r)))
       (classify_user_events cfg events_df))
   \<and> map fst (classify_user_events cfg events_df) = [0..<length events_df]"
  by (simp only: classify_user_events_events classify_user_events_length
        classify_user_events_page_category classify_user_events_sorted
        classify_user_events_labels simp_thms)


text \<open>
  C10. A classified event has stage \<open>UNKNOWN\<close> if and only if its confidence is 0, in
  the output of the classifier as in the classification of a single event.
\<close>

theorem unknown_iff_zero_confidence:
  "(\<forall>r\<in>set (classify_user_events cfg events_df).
      (funnel_stage (snd r) = ''UNKNOWN'') = (stage_confidence (snd r) = 0))
   \<and> (fst (classify_single_event cfg ev ctx) = ''UNKNOWN'')
       = (snd (classify_single_event cfg ev ctx) = 0)"
proof -
  let ?P = "\<lambda>res :: string \<times> rat. (fst res = ''UNKNOWN'') = (snd res = 0)"
  have single: "?P (classify_single_event cfg row c)" for row :: "'b row" and c
    using classify_single_event_known [of cfg row c] by simp
  have "\<forall>r\<in>set (classify_user_events cfg events_df). ?P (stage_of r)"
    by (rule classify_user_events_invariant) (simp, rule single)
  then show ?thesis
    using single [of ev ctx] by (simp add: stage_of_def)
qed

theorem unknown_iff_zero_confidence_witness:
  "length (classify_user_events default_config landing_signup) = 1
   \<and> (funnel_stage (snd (classify_user_events default_config landing_signup ! 0)) = ''UNKNOWN'')
       = (stage_confidence (snd (classify_user_events default_config landing_signup ! 0)) = 0)"
proof -
  have len: "length (classify_user_events default_config landing_signup) = 1"
    by (simp add: classify_user_events_length landing_signup_def)
  then have "classify_user_events default_config landing_signup ! 0
               \<in> set (classify_user_events default_config landing_signup)"
    by simp
  with unknown_iff_zero_confidence [of default_config landing_signup] len show ?thesis
    by blast
qed


end
